theory Spec2Isabelle
  imports Complex_Main "HOL-Library.Multiset"
begin

section \<open>Python strings\<close>

text \<open>
  A Python \<open>str\<close> is modelled as a \<open>string\<close>: ASCII text character by character, other
  text by the bytes of its UTF-8 encoding. \<open>str.upper\<close> and \<open>str.lower\<close> are modelled on
  the ASCII letters and leave every other byte as it is, and the white-space class of the
  regular expressions is the ASCII one. On ASCII text this is what Python does; the
  characters beyond ASCII that Python's case mappings change or that it counts as white
  space are outside the model.
\<close>

definition upper_char :: "char \<Rightarrow> char" where
  "upper_char c =
     (let n = (of_char c :: nat) in if 97 \<le> n \<and> n \<le> 122 then char_of (n - 32) else c)"

definition lower_char :: "char \<Rightarrow> char" where
  "lower_char c =
     (let n = (of_char c :: nat) in if 65 \<le> n \<and> n \<le> 90 then char_of (n + 32) else c)"

definition upper :: "string \<Rightarrow> string" where
  "upper s = map upper_char s"

definition lower :: "string \<Rightarrow> string" where
  "lower s = map lower_char s"

text \<open>\<open>starts_with p s\<close> is \<open>s.startswith(p)\<close>; \<open>str_contains sub s\<close> is \<open>sub in s\<close>.\<close>

fun starts_with :: "string \<Rightarrow> string \<Rightarrow> bool" where
  "starts_with [] s = True"
| "starts_with (p # ps) [] = False"
| "starts_with (p # ps) (c # cs) = (p = c \<and> starts_with ps cs)"

fun str_contains :: "string \<Rightarrow> string \<Rightarrow> bool" where
  "str_contains sub [] = (sub = [])"
| "str_contains sub (c # cs) = (starts_with sub (c # cs) \<or> str_contains sub cs)"

section \<open>The regular expressions of the repository\<close>

text \<open>
  The source uses four regular expressions, built from literals, alternation, capturing
  groups, the end anchor and \<open>+\<close> on three character classes. \<open>regex\<close> has exactly these
  constructs. \<open>SymChar\<close> is \<open>[A-Z0-9&\-]\<close>, \<open>Space\<close> is \<open>\s\<close> (the ASCII characters that
  Python counts as white space: tab, line feed, vertical tab, form feed, carriage return,
  the four separators 28 to 31, and the blank), \<open>NotSpaceAt\<close> is \<open>[^\s@]\<close>.
\<close>

datatype cclass = SymChar | Space | NotSpaceAt

definition is_space :: "char \<Rightarrow> bool" where
  "is_space c = ((of_char c :: nat) \<in> {9, 10, 11, 12, 13, 28, 29, 30, 31, 32})"

definition is_sym :: "char \<Rightarrow> bool" where
  "is_sym c =
     (let n = (of_char c :: nat) in
      (65 \<le> n \<and> n \<le> 90) \<or> (48 \<le> n \<and> n \<le> 57) \<or> c = CHR ''&'' \<or> c = CHR ''-'')"

fun in_class :: "cclass \<Rightarrow> char \<Rightarrow> bool" where
  "in_class SymChar c = is_sym c"
| "in_class Space c = is_space c"
| "in_class NotSpaceAt c = (\<not> is_space c \<and> c \<noteq> CHR ''@'')"

datatype regex =
    Lit string
  | OneOrMore cclass
  | Alt "regex list"
  | Cat "regex list"
  | Grp regex
  | EndAnchor

text \<open>
  \<open>rmatch r s g\<close> lists every way \<open>r\<close> matches a prefix of \<open>s\<close>, in the order Python's
  backtracking matcher tries them: the alternatives of \<open>|\<close> from left to right, the
  repetitions of a greedy \<open>+\<close> from the longest to the shortest. Each entry is the rest of
  the text after the match and the groups captured so far (\<open>g\<close> extended, a group being
  added when it closes; no group of the source's patterns is nested in another). The head
  of the list is the match Python reports. \<open>EndAnchor\<close> is \<open>$\<close>: the end of the text, or
  just before a line feed that ends the text.
\<close>

fun rmatch :: "regex \<Rightarrow> string \<Rightarrow> string list \<Rightarrow> (string \<times> string list) list" where
  "rmatch (Lit l) s g = (if starts_with l s then [(drop (length l) s, g)] else [])"
| "rmatch (OneOrMore k) s g =
     map (\<lambda>n. (drop n s, g)) (rev [1 ..< Suc (length (takeWhile (in_class k) s))])"
| "rmatch (Alt rs) s g = concat (map (\<lambda>r. rmatch r s g) rs)"
| "rmatch (Cat []) s g = [(s, g)]"
| "rmatch (Cat (r # rs)) s g =
     concat (map (\<lambda>(s', g'). rmatch (Cat rs) s' g') (rmatch r s g))"
| "rmatch (Grp r) s g =
     map (\<lambda>(s', g'). (s', g' @ [take (length s - length s') s])) (rmatch r s g)"
| "rmatch EndAnchor s g = (if s = [] \<or> s = [CHR 0x0A] then [(s, g)] else [])"

text \<open>
  \<open>re.search\<close> tries every start position from the left and returns the first match;
  \<open>re.match\<close> tries the start of the text only. A match object is modelled by the list
  of its groups; \<open>mgroup m k\<close> is \<open>m.group(k)\<close>.
\<close>

fun re_search :: "regex \<Rightarrow> string \<Rightarrow> string list option" where
  "re_search r [] = (case rmatch r [] [] of [] \<Rightarrow> None | (_, g) # _ \<Rightarrow> Some g)"
| "re_search r (c # cs) =
     (case rmatch r (c # cs) [] of [] \<Rightarrow> re_search r cs | (_, g) # _ \<Rightarrow> Some g)"

definition re_match :: "regex \<Rightarrow> string \<Rightarrow> string list option" where
  "re_match r s = (case rmatch r s [] of [] \<Rightarrow> None | (_, g) # _ \<Rightarrow> Some g)"

definition mgroup :: "string list \<Rightarrow> nat \<Rightarrow> string option" where
  "mgroup m k = (if 1 \<le> k \<and> k \<le> length m then Some (m ! (k - 1)) else None)"

section \<open>trading_agent.py: parse_symbol_from_query\<close>

definition exchange_alt :: regex where
  "exchange_alt = Alt [Lit ''NSE'', Lit ''BSE'', Lit ''NFO'', Lit ''MCX'']"

text \<open>Pattern 1, \<open>(NSE|BSE|NFO|MCX):([A-Z0-9&\-]+)\<close>.\<close>

definition pattern1 :: regex where
  "pattern1 = Cat [Grp exchange_alt, Lit '':'', Grp (OneOrMore SymChar)]"

text \<open>Pattern 2, \<open>([A-Z0-9&\-]+)\s+(?:ON|AT|TRADED\s+AT)\s+(NSE|BSE|NFO|MCX)\<close>.\<close>

definition pattern2 :: regex where
  "pattern2 =
     Cat [Grp (OneOrMore SymChar), OneOrMore Space,
          Alt [Lit ''ON'', Lit ''AT'', Cat [Lit ''TRADED'', OneOrMore Space, Lit ''AT'']],
          OneOrMore Space, Grp exchange_alt]"

text \<open>Pattern 3, \<open>(NSE|BSE|NFO|MCX)\s+([A-Z0-9&\-]+)\<close>.\<close>

definition pattern3 :: regex where
  "pattern3 = Cat [Grp exchange_alt, OneOrMore Space, Grp (OneOrMore SymChar)]"

definition known_symbols :: "string list" where
  "known_symbols =
     [''RELIANCE'', ''TCS'', ''INFY'', ''HDFC'', ''ICICI'', ''SBI'', ''ITC'',
      ''HDFCBANK'', ''BHARTIARTL'', ''KOTAKBANK'', ''LT'', ''ASIANPAINT'',
      ''MARUTI'', ''TITAN'', ''NESTLEIND'', ''ULTRACEMCO'', ''BAJFINANCE'',
      ''SENSEX'', ''NIFTY'']"

text \<open>
  The result is the pair \<open>(symbol, exchange)\<close>; \<open>None\<close> is Python's \<open>None\<close>. The four
  \<open>if match: return\<close> blocks of the source are the four cases, in the source's order.
\<close>

definition parse_symbol_from_query :: "string \<Rightarrow> string option \<times> string option" where
  "parse_symbol_from_query query =
     (let query_upper = upper query in
      case re_search pattern1 query_upper of
        Some m \<Rightarrow> (mgroup m 2, mgroup m 1)
      | None \<Rightarrow>
     (case re_search pattern2 query_upper of
        Some m \<Rightarrow> (mgroup m 1, mgroup m 2)
      | None \<Rightarrow>
     (case re_search pattern3 query_upper of
        Some m \<Rightarrow> (mgroup m 2, mgroup m 1)
      | None \<Rightarrow>
     (case find (\<lambda>symbol. str_contains symbol query_upper) known_symbols of
        Some symbol \<Rightarrow> (Some symbol, Some ''NSE'')
      | None \<Rightarrow> (None, None)))))"

text \<open>
  The words of the specification for what the patterns look for: the exchange names, and
  the linking words \<open>ON\<close>, \<open>AT\<close> and \<open>TRADED AT\<close> (with any white space between its two
  words) of the second pattern.
\<close>

definition exchanges :: "string list" where
  "exchanges = [''NSE'', ''BSE'', ''NFO'', ''MCX'']"

definition linking_words :: "string \<Rightarrow> bool" where
  "linking_words k =
     (k = ''ON'' \<or> k = ''AT'' \<or>
      (\<exists>w. w \<noteq> [] \<and> list_all is_space w \<and> k = ''TRADED'' @ w @ ''AT''))"

section \<open>Python values\<close>

text \<open>
  A Python \<open>float\<close> is a finite value, an infinity or NaN. Comparisons of floats with
  integers are exact in Python, so they are modelled on the real value. Float arithmetic
  rounds; the model does not evaluate it but records the expression (\<open>fexpr\<close>), so nothing
  below depends on a rounded result. An f-string is recorded as the list of its parts
  (\<open>PFmt\<close>), each part standing for its \<open>str()\<close>. A \<open>dict\<close> literal is the association
  list of its items in the source's order.
\<close>

datatype pyfloat = FloatVal real | FloatPosInf | FloatNegInf | FloatNaN

datatype fexpr = FConst pyfloat | FOfInt int | FMul fexpr fexpr | FAdd fexpr fexpr

datatype pyval =
    PBool bool
  | PStr string
  | PInt int
  | PFloat fexpr
  | PFmt "pyval list"
  | PList "pyval list"
  | PDict "(string \<times> pyval) list"

datatype py_exception = OverflowError | ValueError | RunnerException string

fun float_le_int :: "pyfloat \<Rightarrow> int \<Rightarrow> bool" where
  "float_le_int (FloatVal x) n = (x \<le> of_int n)"
| "float_le_int FloatPosInf n = False"
| "float_le_int FloatNegInf n = True"
| "float_le_int FloatNaN n = False"

fun float_gt_int :: "pyfloat \<Rightarrow> int \<Rightarrow> bool" where
  "float_gt_int (FloatVal x) n = (x > of_int n)"
| "float_gt_int FloatPosInf n = True"
| "float_gt_int FloatNegInf n = False"
| "float_gt_int FloatNaN n = False"

text \<open>\<open>int(x)\<close> of a float truncates towards zero; it raises on an infinity and on NaN.\<close>

fun float_to_int :: "pyfloat \<Rightarrow> py_exception + int" where
  "float_to_int (FloatVal x) = Inr (if 0 \<le> x then \<lfloor>x\<rfloor> else \<lceil>x\<rceil>)"
| "float_to_int FloatPosInf = Inl OverflowError"
| "float_to_int FloatNegInf = Inl OverflowError"
| "float_to_int FloatNaN = Inl ValueError"

text \<open>
  \<open>float * int\<close> first converts the integer to a float, rounding to the nearest double,
  and raises \<open>OverflowError\<close> when the rounded value is beyond the largest double, that is
  from \<open>2^1024 - 2^970\<close> on in magnitude.
\<close>

definition int_fits_float :: "int \<Rightarrow> bool" where
  "int_fits_float n = (\<bar>n\<bar> < 2 ^ 1024 - 2 ^ 970)"

section \<open>automotive_multi-agent.py: the data model\<close>

text \<open>
  The pydantic models. \<open>dependencies\<close> defaults to the empty list, \<open>status\<close> to
  \<open>pending\<close>, \<open>parallel_groups\<close> to the empty list; the records below are written with
  the defaults filled in where the source leaves a field out.
\<close>

record WorkflowStep =
  step_id :: string
  agent_type :: string
  action :: string
  parameters :: "(string \<times> pyval) list"
  dependencies :: "string list"
  status :: string

record WorkflowPlan =
  request_id :: string
  original_query :: string
  steps :: "WorkflowStep list"
  execution_order :: "string list"
  parallel_groups :: "string list list"

section \<open>automotive_multi-agent.py: the domain tools\<close>

type_synonym envelope = "(string \<times> pyval) list"

definition get_repair_order_details :: "string \<Rightarrow> envelope" where
  "get_repair_order_details ro_number =
     (if ro_number = ''RO_001'' then
        [(''success'', PBool True),
         (''tool'', PStr ''get_repair_order_details''),
         (''result'', PDict
            [(''roNumber'', PStr ro_number),
             (''status'', PStr ''IN_PROGRESS''),
             (''customerId'', PStr ''CUST_001''),
             (''vehicleId'', PStr ''VEH_001''),
             (''customerEmail'', PStr ''customer@example.com''),
             (''totalAmount'', PFloat (FConst (FloatVal 145.99))),
             (''parts'', PList []),
             (''canModify'', PBool True),
             (''createdDate'', PStr ''2025-01-15'')]),
         (''timestamp'', PStr ''2025-01-15T10:30:00Z''),
         (''mcp_server'', PStr ''repair-orders-server-3003'')]
      else
        [(''success'', PBool False),
         (''error'', PStr ''Repair Order Not Found''),
         (''message'', PFmt [PStr ''Repair order '', PStr ro_number, PStr '' not found'']),
         (''tool'', PStr ''get_repair_order_details''),
         (''mcp_server'', PStr ''repair-orders-server-3003'')])"

text \<open>
  In the source the body of \<open>get_part_by_number\<close> goes on after its \<open>if\<close>/\<open>else\<close> with the
  remains of two other tools (lines 105 to 189); both branches above have returned by
  then, so that text never runs and is not part of the function.
\<close>

definition get_part_by_number :: "string \<Rightarrow> envelope" where
  "get_part_by_number part_number =
     (if part_number = ''PART_001'' then
        [(''success'', PBool True),
         (''tool'', PStr ''get_part_by_number''),
         (''result'', PDict
            [(''partNumber'', PStr part_number),
             (''description'', PStr ''Brake Pad Set - Front''),
             (''category'', PStr ''BRAKES''),
             (''unitPrice'', PFloat (FConst (FloatVal 45.99))),
             (''currency'', PStr ''INR''),
             (''brand'', PStr ''OEM''),
             (''inStock'', PBool True),
             (''availableQuantity'', PInt 25),
             (''compatibility'', PList [PStr ''Honda Civic'', PStr ''Honda Accord''])]),
         (''timestamp'', PStr ''2025-01-15T10:30:00Z''),
         (''mcp_server'', PStr ''parts-server-3005'')]
      else
        [(''success'', PBool False),
         (''error'', PStr ''Part Not Found''),
         (''message'', PFmt [PStr ''Part '', PStr part_number, PStr '' not found in catalog'']),
         (''tool'', PStr ''get_part_by_number''),
         (''mcp_server'', PStr ''parts-server-3005'')])"

text \<open>
  \<open>add_part_to_repair_order\<close> has one \<open>return\<close>. Building its dict multiplies the float
  \<open>45.99\<close> by \<open>quantity\<close>, which raises when the integer does not fit a float; the first
  such product is evaluated before anything is returned. (\<open>quantity\<close> defaults to 1.)
\<close>

definition unit_price :: fexpr where
  "unit_price = FConst (FloatVal 45.99)"

definition add_part_to_repair_order :: "string \<Rightarrow> string \<Rightarrow> int \<Rightarrow> py_exception + envelope" where
  "add_part_to_repair_order ro_number part_number quantity =
     (if \<not> int_fits_float quantity then Inl OverflowError
      else Inr
        [(''success'', PBool True),
         (''tool'', PStr ''add_part_to_repair_order''),
         (''result'', PDict
            [(''roNumber'', PStr ro_number),
             (''partAdded'', PDict
                [(''partNumber'', PStr part_number),
                 (''quantity'', PInt quantity),
                 (''unitPrice'', PFloat unit_price),
                 (''totalPrice'', PFloat (FMul unit_price (FOfInt quantity)))]),
             (''updatedTotals'', PDict
                [(''partsTotal'', PFloat (FMul unit_price (FOfInt quantity))),
                 (''laborTotal'', PFloat (FConst (FloatVal 100))),
                 (''grandTotal'', PFloat
                    (FAdd (FMul unit_price (FOfInt quantity)) (FConst (FloatVal 100))))]),
             (''inventoryReserved'', PBool True)]),
         (''timestamp'', PStr ''2025-01-15T10:30:00Z''),
         (''message'', PFmt [PStr ''Successfully added '', PInt quantity, PStr ''x '',
            PStr part_number, PStr '' to repair order '', PStr ro_number]),
         (''mcp_server'', PStr ''repair-orders-server-3003'')])"

text \<open>
  The e-mail pattern \<open>^[^\s@]+@[^\s@]+\.[^\s@]+$\<close>. It is used with \<open>re.match\<close>, which only
  tries the start of the text, where \<open>^\<close> holds.
\<close>

definition email_regex :: regex where
  "email_regex =
     Cat [OneOrMore NotSpaceAt, Lit ''@'', OneOrMore NotSpaceAt, Lit ''.'',
          OneOrMore NotSpaceAt, EndAnchor]"

text \<open>(\<open>currency\<close> defaults to \<open>INR\<close>.)\<close>

definition create_payment_link ::
    "string \<Rightarrow> pyfloat \<Rightarrow> string \<Rightarrow> string \<Rightarrow> py_exception + envelope" where
  "create_payment_link ro_number amount customer_email currency =
     (if re_match email_regex customer_email = None then
        Inr [(''success'', PBool False),
             (''error'', PStr ''Invalid Email''),
             (''message'', PStr ''Valid customer email is required''),
             (''tool'', PStr ''create_payment_link'')]
      else if float_le_int amount 0 \<or> float_gt_int amount 999999999 then
        Inr [(''success'', PBool False),
             (''error'', PStr ''Invalid Amount''),
             (''message'', PStr ''Payment amount must be between 0 and 999999999''),
             (''tool'', PStr ''create_payment_link'')]
      else
        (case float_to_int amount of
           Inl e \<Rightarrow> Inl e
         | Inr n \<Rightarrow>
            (let payment_link_id = PFmt [PStr ''PL_'', PStr ro_number, PStr ''_'', PInt n] in
             Inr [(''success'', PBool True),
                  (''tool'', PStr ''create_payment_link''),
                  (''result'', PDict
                     [(''paymentLinkId'', payment_link_id),
                      (''paymentUrl'',
                         PFmt [PStr ''https://payments.cacargroup.com/pay/'', payment_link_id]),
                      (''amount'', PFloat (FConst amount)),
                      (''currency'', PStr currency),
                      (''customerEmail'', PStr customer_email),
                      (''roNumber'', PStr ro_number),
                      (''expiresAt'', PStr ''2025-01-16T10:30:00Z''),
                      (''status'', PStr ''ACTIVE'')]),
                  (''timestamp'', PStr ''2025-01-15T10:30:00Z''),
                  (''message'', PFmt [PStr ''Payment link created for '', PStr currency,
                     PStr '' '', PFloat (FConst amount), PStr '' sent to '', PStr customer_email]),
                  (''mcp_server'', PStr ''payment-server-3002'')])))"

text \<open>
  What is checked of an envelope: whether it has a key, and its core shape, which is a
  tool name and a Boolean \<open>success\<close>, with a \<open>result\<close> and no \<open>error\<close> when \<open>success\<close> is
  true, and an \<open>error\<close> and a \<open>message\<close> and no \<open>result\<close> when it is false.
\<close>

definition has_key :: "envelope \<Rightarrow> string \<Rightarrow> bool" where
  "has_key env k = (map_of env k \<noteq> None)"

definition envelope_core :: "envelope \<Rightarrow> bool" where
  "envelope_core env =
     (has_key env ''tool'' \<and>
      (case map_of env ''success'' of
         Some (PBool b) \<Rightarrow>
           if b then has_key env ''result'' \<and> \<not> has_key env ''error''
           else has_key env ''error'' \<and> has_key env ''message'' \<and> \<not> has_key env ''result''
       | _ \<Rightarrow> False))"

section \<open>automotive_multi-agent.py: analyze_multi_domain_request\<close>

definition analyze_multi_domain_request :: "string \<Rightarrow> WorkflowPlan" where
  "analyze_multi_domain_request query =
     (if str_contains ''add part'' (lower query) \<and> str_contains ''payment link'' (lower query)
      then
        \<lparr>request_id = ''REQ_001_DEFENSIVE'',
         original_query = query,
         steps =
           [\<lparr>step_id = ''validate_1'',
             agent_type = ''repair_orders'',
             action = ''validate_repair_order'',
             parameters = [(''ro_number'', PStr ''RO_001'')],
             dependencies = [],
             status = ''pending''\<rparr>,
            \<lparr>step_id = ''validate_2'',
             agent_type = ''parts'',
             action = ''validate_part_exists'',
             parameters = [(''part_number'', PStr ''PART_001'')],
             dependencies = [''validate_1''],
             status = ''pending''\<rparr>,
            \<lparr>step_id = ''execute_1'',
             agent_type = ''parts'',
             action = ''add_part_to_order'',
             parameters = [(''ro_number'', PStr ''RO_001''), (''part_number'', PStr ''PART_001''),
                           (''quantity'', PInt 1)],
             dependencies = [''validate_5''],
             status = ''pending''\<rparr>,
            \<lparr>step_id = ''execute_2'',
             agent_type = ''payment'',
             action = ''create_payment_link'',
             parameters = [(''ro_number'', PStr ''RO_001''),
                           (''amount'', PFloat (FConst (FloatVal 100))),
                           (''customer_email'', PStr ''abc@gmail.com''),
                           (''currency'', PStr ''USD'')],
             dependencies = [''execute_1''],
             status = ''pending''\<rparr>],
         execution_order = [''validate_1'', ''validate_2'', ''execute_1'', ''execute_2''],
         parallel_groups = []\<rparr>
      else
        \<lparr>request_id = ''REQ_002'',
         original_query = query,
         steps =
           [\<lparr>step_id = ''step_1'',
             agent_type = ''general'',
             action = ''handle_query'',
             parameters = [(''query'', PStr query)],
             dependencies = [],
             status = ''pending''\<rparr>],
         execution_order = [''step_1''],
         parallel_groups = []\<rparr>)"

text \<open>
  The properties a plan is checked against: its step ids, whether \<open>execution_order\<close> is a
  permutation of them, whether every dependency of every step stands in
  \<open>execution_order\<close> strictly before the step, and whether some dependency names no step
  of the plan.
\<close>

definition step_ids :: "WorkflowPlan \<Rightarrow> string list" where
  "step_ids plan = map step_id (steps plan)"

definition order_is_permutation :: "WorkflowPlan \<Rightarrow> bool" where
  "order_is_permutation plan = (mset (execution_order plan) = mset (step_ids plan))"

definition earlier_in_order :: "WorkflowPlan \<Rightarrow> string \<Rightarrow> string \<Rightarrow> bool" where
  "earlier_in_order plan d s =
     (s \<in> set (execution_order plan) \<and>
      d \<in> set (takeWhile (\<lambda>x. x \<noteq> s) (execution_order plan)))"

definition dependencies_first :: "WorkflowPlan \<Rightarrow> bool" where
  "dependencies_first plan =
     list_all (\<lambda>s. list_all (\<lambda>d. earlier_in_order plan d (step_id s)) (dependencies s))
       (steps plan)"

definition dangling_dependencies :: "WorkflowPlan \<Rightarrow> (string \<times> string) list" where
  "dangling_dependencies plan =
     concat (map (\<lambda>s. map (\<lambda>d. (step_id s, d))
                        (filter (\<lambda>d. d \<notin> set (step_ids plan)) (dependencies s)))
                 (steps plan))"

text \<open>
  The dependencies a step declares, and everything reached from them by following
  declared dependencies (through at most as many links as the plan has steps).
\<close>

definition direct_dependencies :: "WorkflowPlan \<Rightarrow> string \<Rightarrow> string list" where
  "direct_dependencies plan sid =
     concat (map dependencies (filter (\<lambda>s. step_id s = sid) (steps plan)))"

fun dependency_closure :: "nat \<Rightarrow> WorkflowPlan \<Rightarrow> string list \<Rightarrow> string list" where
  "dependency_closure 0 plan ids = ids"
| "dependency_closure (Suc n) plan ids =
     dependency_closure n plan (remdups (ids @ concat (map (direct_dependencies plan) ids)))"

definition all_dependencies :: "WorkflowPlan \<Rightarrow> string \<Rightarrow> string list" where
  "all_dependencies plan sid =
     dependency_closure (length (steps plan)) plan (direct_dependencies plan sid)"

text \<open>
  Two concrete queries: the one \<open>main\<close> of automotive_multi-agent.py sends, and the one
  the specification gives as its example.
\<close>

definition demo_query :: string where
  "demo_query =
     ''Add partNumber PART_001 to Repair order number RO_001, and send payment link of 100$ to abc@gmail.com''"

definition spec_query :: string where
  "spec_query = ''Add part PART_001 to RO_001 and send a payment link of 100 to a@b.com''"

section \<open>AgentsSDKPlaybook.py: the conversation loop of main\<close>

datatype agent_id = triage_agent | french_agent | spanish_agent | german_agent

datatype triage_action = handoff_to_french | handoff_to_spanish | handoff_to_german | complete

record TriageDecision =
  action :: triage_action
  message :: string
  remaining_languages :: "string list"

text \<open>
  What \<open>Runner.run\<close> returns, as far as \<open>main\<close> reads it: \<open>final_output\<close> (a
  \<open>TriageDecision\<close> or anything else, such as the text of a specialist),
  \<open>to_input_list()\<close> and \<open>last_agent\<close>. An input item is a dict of strings.
\<close>

datatype agent_output = Decision TriageDecision | OtherOutput string

type_synonym input_item = "(string \<times> string) list"

record run_result =
  final_output :: agent_output
  to_input_list :: "input_item list"
  last_agent :: agent_id

text \<open>
  \<open>Runner.run\<close> belongs to the agents SDK and calls the language model; it is a parameter
  of the model. Its first argument counts the calls made so far in the exchange, so that
  a runner may answer the same agent and input differently from call to call. It returns
  a result or raises; \<open>main\<close> does not catch what it raises.
\<close>

type_synonym runner = "nat \<Rightarrow> agent_id \<Rightarrow> input_item list \<Rightarrow> py_exception + run_result"

text \<open>
  The variables of the inner \<open>while True\<close> loop: \<open>inputs\<close> and \<open>agent\<close>, and the number
  \<open>turn\<close> of \<open>Runner.run\<close> calls made so far (the source keeps no such counter; it is
  here to say how often the runner was called).
\<close>

record loop_state =
  inputs :: "input_item list"
  agent :: agent_id
  turn :: nat

text \<open>
  The ways the inner loop is left: the three \<open>break\<close>s that can be reached (after
  \<open>Translation workflow completed!\<close>, after \<open>Unexpected triage response type\<close>, after
  \<open>Too many iterations, breaking to prevent infinite loop\<close>), and an exception of the
  runner. The \<open>except\<close> branch guards statements that only read fields and print, so
  nothing in the model reaches it.
\<close>

datatype loop_exit = Completed | UnexpectedResponse | TooManyIterations | RunnerRaised py_exception

text \<open>One pass through the body of the inner loop: it leaves the loop or goes round again.\<close>

definition loop_iteration :: "runner \<Rightarrow> loop_state \<Rightarrow> (loop_exit \<times> loop_state) + loop_state" where
  "loop_iteration run st =
     (case run (turn st) (agent st) (inputs st) of
        Inl e \<Rightarrow> Inl (RunnerRaised e, st\<lparr>turn := Suc (turn st)\<rparr>)
      | Inr result \<Rightarrow>
          (let st' = \<lparr>inputs = to_input_list result, agent = last_agent result,
                      turn = Suc (turn st)\<rparr>
           in if agent st' = triage_agent then
                (case final_output result of
                   Decision triage_response \<Rightarrow>
                     if TriageDecision.action triage_response = complete then Inl (Completed, st')
                     else if length (inputs st') > 20 then Inl (TooManyIterations, st')
                     else Inr st'
                 | OtherOutput other \<Rightarrow> Inl (UnexpectedResponse, st'))
              else if length (inputs st') > 20 then Inl (TooManyIterations, st')
              else Inr st'))"

text \<open>
  The inner loop is \<open>while True\<close> and may run for ever; the model runs it for at most
  \<open>fuel\<close> passes and returns \<open>None\<close> when they are used up.
\<close>

fun conversation_loop :: "nat \<Rightarrow> runner \<Rightarrow> loop_state \<Rightarrow> (loop_exit \<times> loop_state) option" where
  "conversation_loop 0 run st = None"
| "conversation_loop (Suc fuel) run st =
     (case loop_iteration run st of
        Inl out \<Rightarrow> Some out
      | Inr st' \<Rightarrow> conversation_loop fuel run st')"

text \<open>
  \<open>state_after k run st\<close> is the state in which pass \<open>k + 1\<close> of the loop starts, when the
  loop started in \<open>st\<close> and has not been left during its first \<open>k\<close> passes.
\<close>

fun state_after :: "nat \<Rightarrow> runner \<Rightarrow> loop_state \<Rightarrow> loop_state option" where
  "state_after 0 run st = Some st"
| "state_after (Suc k) run st =
     (case loop_iteration run st of
        Inl out \<Rightarrow> None
      | Inr st' \<Rightarrow> state_after k run st')"

text \<open>
  One exchange: the loop started as \<open>main\<close> starts it, at the triage agent, with the
  user's message as the only input item.
\<close>

definition exchange_start :: "string \<Rightarrow> loop_state" where
  "exchange_start msg =
     \<lparr>inputs = [[(''content'', msg), (''role'', ''user'')]], agent = triage_agent, turn = 0\<rparr>"

definition exchange :: "nat \<Rightarrow> runner \<Rightarrow> string \<Rightarrow> (loop_exit \<times> loop_state) option" where
  "exchange fuel run msg = conversation_loop fuel run (exchange_start msg)"

text \<open>
  Two properties of a runner: every run that returns hands back a longer input list than
  it was given (\<open>to_input_list()\<close> is the input followed by what the run produced), and
  no run returns a \<open>TriageDecision\<close> whose action is \<open>complete\<close>.
\<close>

definition growing :: "runner \<Rightarrow> bool" where
  "growing run = (\<forall>n a xs r. run n a xs = Inr r \<longrightarrow> length xs < length (to_input_list r))"

definition never_completes :: "runner \<Rightarrow> bool" where
  "never_completes run =
     (\<forall>n a xs r d. run n a xs = Inr r \<longrightarrow> final_output r = Decision d
        \<longrightarrow> TriageDecision.action d \<noteq> complete)"




text \<open>
  Runners used as concrete inputs. \<open>plain_text_runner\<close>: the triage agent answers with
  text that is no \<open>TriageDecision\<close>. \<open>relay_runner\<close>: every call adds one item and ends at
  the French agent, so the triage agent never decides anything. \<open>stuck_runner\<close>: the
  same, but the list it returns does not grow. \<open>complete_runner\<close>: the triage agent
  hands to the French agent on its first call and completes on its second.
  \<open>undecided_runner\<close>: every run adds one item and ends at the triage agent with a
  decision to hand off, never with \<open>complete\<close>.
\<close>

definition plain_text_runner :: runner where
  "plain_text_runner n a xs =
     Inr \<lparr>final_output = OtherOutput ''hello'',
          to_input_list = xs @ [[(''content'', ''hello''), (''role'', ''assistant'')]],
          last_agent = triage_agent\<rparr>"

definition relay_runner :: runner where
  "relay_runner n a xs =
     Inr \<lparr>final_output = OtherOutput ''bonjour'',
          to_input_list = xs @ [[(''content'', ''bonjour''), (''role'', ''assistant'')]],
          last_agent = french_agent\<rparr>"

definition stuck_runner :: runner where
  "stuck_runner n a xs =
     Inr \<lparr>final_output = OtherOutput ''bonjour'',
          to_input_list = [[(''content'', ''bonjour''), (''role'', ''assistant'')]],
          last_agent = french_agent\<rparr>"

definition complete_runner :: runner where
  "complete_runner n a xs =
     (if n = 0 then
        Inr \<lparr>final_output = OtherOutput ''bonjour'',
             to_input_list = xs @ [[(''content'', ''bonjour''), (''role'', ''assistant'')]],
             last_agent = french_agent\<rparr>
      else
        Inr \<lparr>final_output = Decision \<lparr>action = complete, message = ''done'',
                                       remaining_languages = []\<rparr>,
             to_input_list = xs @ [[(''content'', ''done''), (''role'', ''assistant'')]],
             last_agent = triage_agent\<rparr>)"

definition undecided_runner :: runner where
  "undecided_runner n a xs =
     Inr \<lparr>final_output = Decision \<lparr>action = handoff_to_french, message = ''to french'',
                                    remaining_languages = [''french'']\<rparr>,
          to_input_list = xs @ [[(''content'', ''to french''), (''role'', ''assistant'')]],
          last_agent = triage_agent\<rparr>"

section \<open>Substrings and case mapping\<close>

text \<open>
  \<open>str_contains\<close> is the substring test of Python's \<open>in\<close>: the text is some prefix, the
  substring and some rest.
\<close>

lemma starts_with_iff: "starts_with p s \<longleftrightarrow> (\<exists>post. s = p @ post)"
  by (induction p s rule: starts_with.induct) auto

lemma str_contains_iff: "str_contains sub s \<longleftrightarrow> (\<exists>pre post. s = pre @ sub @ post)"
proof (induction s)
  case Nil
  then show ?case by auto
next
  case (Cons c cs)
  show ?case
  proof
    assume "str_contains sub (c # cs)"
    then consider "starts_with sub (c # cs)" | "str_contains sub cs" by auto
    then show "\<exists>pre post. c # cs = pre @ sub @ post"
    proof cases
      case 1
      then obtain post where "c # cs = sub @ post" using starts_with_iff by blast
      then have "c # cs = [] @ sub @ post" by simp
      then show ?thesis by blast
    next
      case 2
      with Cons obtain pre post where "cs = pre @ sub @ post" by blast
      then have "c # cs = (c # pre) @ sub @ post" by simp
      then show ?thesis by blast
    qed
  next
    assume "\<exists>pre post. c # cs = pre @ sub @ post"
    then obtain pre post where e: "c # cs = pre @ sub @ post" by blast
    show "str_contains sub (c # cs)"
    proof (cases pre)
      case Nil
      with e have "starts_with sub (c # cs)" using starts_with_iff by auto
      then show ?thesis by simp
    next
      case (Cons a pre')
      with e have "cs = pre' @ sub @ post" by simp
      with Cons.IH have "str_contains sub cs" by blast
      then show ?thesis by simp
    qed
  qed
qed

lemma lower_ascii: "lower ''Add Part; PAYMENT Link 42'' = ''add part; payment link 42''"
  by code_simp

lemma upper_ascii: "upper ''nse:Reliance on bse 42'' = ''NSE:RELIANCE ON BSE 42''"
  by code_simp

section \<open>What the matcher finds\<close>

text \<open>
  Every entry of \<open>rmatch\<close> splits the text into what the pattern consumed and the rest,
  and a group holds what its pattern consumed. For the three symbol patterns this says what
  a match looks like in the text and which groups it has.
\<close>

lemma starts_with_append: "starts_with l s \<Longrightarrow> s = l @ drop (length l) s"
  by (induction l s rule: starts_with.induct) auto

lemma take_takeWhile_all:
  "n \<le> length (takeWhile P s) \<Longrightarrow> list_all P (take n s)"
proof (induction s arbitrary: n)
  case Nil
  then show ?case by simp
next
  case (Cons c cs)
  then show ?case by (cases n) (auto split: if_splits)
qed

lemma lit_match:
  assumes "(s', g') \<in> set (rmatch (Lit l) s g)"
  shows "g' = g \<and> s = l @ s'"
proof -
  from assms have a: "starts_with l s" and b: "s' = drop (length l) s" and c: "g' = g"
    by (simp_all split: if_splits)
  from starts_with_append[OF a] b c show ?thesis by simp
qed

lemma exchange_alt_match:
  assumes "(s', g') \<in> set (rmatch exchange_alt s g)"
  shows "g' = g \<and> (\<exists>e. e \<in> set [''NSE'', ''BSE'', ''NFO'', ''MCX''] \<and> s = e @ s')"
proof -
  from assms have "\<exists>r \<in> set [Lit ''NSE'', Lit ''BSE'', Lit ''NFO'', Lit ''MCX''].
      (s', g') \<in> set (rmatch r s g)"
    unfolding exchange_alt_def by (simp only: rmatch.simps(3) set_concat set_map) blast
  then obtain l where l: "l \<in> set [''NSE'', ''BSE'', ''NFO'', ''MCX'']"
    and m: "(s', g') \<in> set (rmatch (Lit l) s g)"
    by (auto simp del: rmatch.simps)
  from lit_match[OF m] l show ?thesis by blast
qed

lemma one_or_more_match:
  assumes "(s', g') \<in> set (rmatch (OneOrMore k) s g)"
  shows "g' = g \<and> (\<exists>u. s = u @ s' \<and> u \<noteq> [] \<and> list_all (in_class k) u)"
proof -
  from assms obtain n where n: "1 \<le> n" "n \<le> length (takeWhile (in_class k) s)"
    and s': "s' = drop n s" and g: "g' = g" by auto
  from n(2) have "list_all (in_class k) (take n s)" by (rule take_takeWhile_all)
  moreover have "n \<le> length s"
    using n(2) length_takeWhile_le[of "in_class k" s] by linarith
  with n(1) have "take n s \<noteq> []" by auto
  moreover have "s = take n s @ s'" using s' by simp
  ultimately show ?thesis using g by blast
qed


lemma cat_nil_match:
  "(s', g') \<in> set (rmatch (Cat []) s g) \<Longrightarrow> s' = s \<and> g' = g"
  by simp

lemma cat_cons_match:
  assumes "(s', g') \<in> set (rmatch (Cat (r # rs)) s g)"
  shows "\<exists>s1 g1. (s1, g1) \<in> set (rmatch r s g) \<and> (s', g') \<in> set (rmatch (Cat rs) s1 g1)"
  using assms by (simp only: rmatch.simps(5) set_concat set_map) (auto simp del: rmatch.simps)

lemma grp_match:
  assumes "(s', g') \<in> set (rmatch (Grp r) s g)"
  shows "\<exists>g1. (s', g1) \<in> set (rmatch r s g) \<and> g' = g1 @ [take (length s - length s') s]"
  using assms by (simp only: rmatch.simps(6) set_map) (auto simp del: rmatch.simps)

lemma taken_prefix: "s = u @ s' \<Longrightarrow> take (length s - length s') s = u"
  by simp

lemma grp_exchange_match:
  assumes "(s', g') \<in> set (rmatch (Grp exchange_alt) s g)"
  shows "\<exists>e. e \<in> set exchanges \<and> s = e @ s' \<and> g' = g @ [e]"
proof -
  from grp_match[OF assms] obtain g1 where
    a: "(s', g1) \<in> set (rmatch exchange_alt s g)"
    and b: "g' = g1 @ [take (length s - length s') s]" by blast
  from exchange_alt_match[OF a] obtain e where
    e: "g1 = g" "e \<in> set [''NSE'', ''BSE'', ''NFO'', ''MCX'']" "s = e @ s'" by blast
  from taken_prefix[OF e(3)] b e show ?thesis unfolding exchanges_def by blast
qed

lemma grp_symbol_match:
  assumes "(s', g') \<in> set (rmatch (Grp (OneOrMore SymChar)) s g)"
  shows "\<exists>y. y \<noteq> [] \<and> list_all is_sym y \<and> s = y @ s' \<and> g' = g @ [y]"
proof -
  from grp_match[OF assms] obtain g1 where
    a: "(s', g1) \<in> set (rmatch (OneOrMore SymChar) s g)"
    and b: "g' = g1 @ [take (length s - length s') s]" by blast
  from one_or_more_match[OF a] obtain u where
    u: "g1 = g" "s = u @ s'" "u \<noteq> []" "list_all (in_class SymChar) u" by blast
  from u(4) have "list_all is_sym u" by (simp add: list_all_iff)
  with taken_prefix[OF u(2)] b u show ?thesis by blast
qed

lemma spaces_match:
  assumes "(s', g') \<in> set (rmatch (OneOrMore Space) s g)"
  shows "\<exists>w. w \<noteq> [] \<and> list_all is_space w \<and> s = w @ s' \<and> g' = g"
proof -
  from one_or_more_match[OF assms] obtain u where
    u: "g' = g" "s = u @ s'" "u \<noteq> []" "list_all (in_class Space) u" by blast
  from u(4) have "list_all is_space u" by (simp add: list_all_iff)
  with u show ?thesis by blast
qed

lemma pattern1_shape:
  assumes "(s', g') \<in> set (rmatch pattern1 s [])"
  shows "\<exists>e y. g' = [e, y] \<and> e \<in> set exchanges \<and> y \<noteq> [] \<and> list_all is_sym y
           \<and> s = e @ '':'' @ y @ s'"
proof -
  from assms[unfolded pattern1_def] cat_cons_match obtain s1 g1 where
    a: "(s1, g1) \<in> set (rmatch (Grp exchange_alt) s [])"
    and r1: "(s', g') \<in> set (rmatch (Cat [Lit '':'', Grp (OneOrMore SymChar)]) s1 g1)"
    by blast
  from cat_cons_match[OF r1] obtain s2 g2 where
    b: "(s2, g2) \<in> set (rmatch (Lit '':'') s1 g1)"
    and r2: "(s', g') \<in> set (rmatch (Cat [Grp (OneOrMore SymChar)]) s2 g2)"
    by blast
  from cat_cons_match[OF r2] obtain s3 g3 where
    c: "(s3, g3) \<in> set (rmatch (Grp (OneOrMore SymChar)) s2 g2)"
    and r3: "(s', g') \<in> set (rmatch (Cat []) s3 g3)"
    by blast
  from cat_nil_match[OF r3] have d: "s' = s3" "g' = g3" by simp_all
  from grp_exchange_match[OF a] obtain e where
    e: "e \<in> set exchanges" "s = e @ s1" "g1 = [e]" by auto
  from lit_match[OF b] have l: "g2 = g1" "s1 = '':'' @ s2" by simp_all
  from grp_symbol_match[OF c] obtain y where
    y: "y \<noteq> []" "list_all is_sym y" "s2 = y @ s3" "g3 = g2 @ [y]" by blast
  from d e l y have "g' = [e, y]" "s = e @ '':'' @ y @ s'" by simp_all
  with e(1) y(1,2) show ?thesis by blast
qed

lemma re_search_found:
  "re_search r s = Some m \<Longrightarrow> \<exists>pre t s'. s = pre @ t \<and> (s', m) \<in> set (rmatch r t [])"
proof (induction s)
  case Nil
  then obtain s' where "(s', m) \<in> set (rmatch r [] [])"
    by (cases "rmatch r [] []") (auto simp del: rmatch.simps)
  then show ?case by blast
next
  case (Cons c cs)
  show ?case
  proof (cases "rmatch r (c # cs) []")
    case Nil
    with Cons.prems have "re_search r cs = Some m" by simp
    from Cons.IH[OF this] obtain pre t s' where
      "cs = pre @ t" "(s', m) \<in> set (rmatch r t [])" by blast
    then have "c # cs = (c # pre) @ t" by simp
    with \<open>(s', m) \<in> set (rmatch r t [])\<close> show ?thesis by blast
  next
    case (Cons p ps)
    obtain s' g' where p: "p = (s', g')" by (cases p)
    with Cons \<open>re_search r (c # cs) = Some m\<close> have "m = g'" by simp
    with Cons p have "(s', m) \<in> set (rmatch r (c # cs) [])" by simp
    moreover have "c # cs = [] @ (c # cs)" by simp
    ultimately show ?thesis by blast
  qed
qed

lemma pattern1_found:
  assumes "re_search pattern1 s = Some m"
  shows "\<exists>e y pre post. m = [e, y] \<and> e \<in> set exchanges \<and> y \<noteq> [] \<and> list_all is_sym y
           \<and> s = pre @ e @ '':'' @ y @ post"
proof -
  from re_search_found[OF assms] obtain pre t s' where
    a: "s = pre @ t" and b: "(s', m) \<in> set (rmatch pattern1 t [])" by blast
  from pattern1_shape[OF b] obtain e y where
    "m = [e, y]" "e \<in> set exchanges" "y \<noteq> []" "list_all is_sym y" "t = e @ '':'' @ y @ s'"
    by blast
  with a show ?thesis by blast
qed


lemma pattern3_shape:
  assumes "(s', g') \<in> set (rmatch pattern3 s [])"
  shows "\<exists>e w y. g' = [e, y] \<and> e \<in> set exchanges \<and> w \<noteq> [] \<and> list_all is_space w
           \<and> y \<noteq> [] \<and> list_all is_sym y \<and> s = e @ w @ y @ s'"
proof -
  from assms[unfolded pattern3_def] cat_cons_match obtain s1 g1 where
    a: "(s1, g1) \<in> set (rmatch (Grp exchange_alt) s [])"
    and r1: "(s', g') \<in> set (rmatch (Cat [OneOrMore Space, Grp (OneOrMore SymChar)]) s1 g1)"
    by blast
  from cat_cons_match[OF r1] obtain s2 g2 where
    b: "(s2, g2) \<in> set (rmatch (OneOrMore Space) s1 g1)"
    and r2: "(s', g') \<in> set (rmatch (Cat [Grp (OneOrMore SymChar)]) s2 g2)"
    by blast
  from cat_cons_match[OF r2] obtain s3 g3 where
    c: "(s3, g3) \<in> set (rmatch (Grp (OneOrMore SymChar)) s2 g2)"
    and r3: "(s', g') \<in> set (rmatch (Cat []) s3 g3)"
    by blast
  from cat_nil_match[OF r3] have d: "s' = s3" "g' = g3" by simp_all
  from grp_exchange_match[OF a] obtain e where
    e: "e \<in> set exchanges" "s = e @ s1" "g1 = [e]" by auto
  from spaces_match[OF b] obtain w where
    w: "w \<noteq> []" "list_all is_space w" "s1 = w @ s2" "g2 = g1" by blast
  from grp_symbol_match[OF c] obtain y where
    y: "y \<noteq> []" "list_all is_sym y" "s2 = y @ s3" "g3 = g2 @ [y]" by blast
  from d e w y have "g' = [e, y]" "s = e @ w @ y @ s'" by simp_all
  with e(1) w(1,2) y(1,2) show ?thesis by blast
qed

lemma linking_match:
  assumes "(s', g') \<in> set (rmatch
      (Alt [Lit ''ON'', Lit ''AT'', Cat [Lit ''TRADED'', OneOrMore Space, Lit ''AT'']]) s g)"
  shows "\<exists>k. linking_words k \<and> s = k @ s' \<and> g' = g"
proof -
  from assms have "\<exists>r \<in> set [Lit ''ON'', Lit ''AT'',
        Cat [Lit ''TRADED'', OneOrMore Space, Lit ''AT'']]. (s', g') \<in> set (rmatch r s g)"
    by (simp only: rmatch.simps(3) set_concat set_map) blast
  then consider
      (on) "(s', g') \<in> set (rmatch (Lit ''ON'') s g)"
    | (at) "(s', g') \<in> set (rmatch (Lit ''AT'') s g)"
    | (traded) "(s', g') \<in> set (rmatch (Cat [Lit ''TRADED'', OneOrMore Space, Lit ''AT'']) s g)"
    by (auto simp del: rmatch.simps)
  then show ?thesis
  proof cases
    case on
    from lit_match[OF on] show ?thesis unfolding linking_words_def by blast
  next
    case at
    from lit_match[OF at] show ?thesis unfolding linking_words_def by blast
  next
    case traded
    from cat_cons_match[OF traded] obtain s1 g1 where
      a: "(s1, g1) \<in> set (rmatch (Lit ''TRADED'') s g)"
      and r1: "(s', g') \<in> set (rmatch (Cat [OneOrMore Space, Lit ''AT'']) s1 g1)" by blast
    from cat_cons_match[OF r1] obtain s2 g2 where
      b: "(s2, g2) \<in> set (rmatch (OneOrMore Space) s1 g1)"
      and r2: "(s', g') \<in> set (rmatch (Cat [Lit ''AT'']) s2 g2)" by blast
    from cat_cons_match[OF r2] obtain s3 g3 where
      c: "(s3, g3) \<in> set (rmatch (Lit ''AT'') s2 g2)"
      and r3: "(s', g') \<in> set (rmatch (Cat []) s3 g3)" by blast
    from cat_nil_match[OF r3] have d: "s' = s3" "g' = g3" by simp_all
    from lit_match[OF a] have l1: "g1 = g" "s = ''TRADED'' @ s1" by simp_all
    from spaces_match[OF b] obtain w where
      w: "w \<noteq> []" "list_all is_space w" "s1 = w @ s2" "g2 = g1" by blast
    from lit_match[OF c] have l2: "g3 = g2" "s2 = ''AT'' @ s3" by simp_all
    from d l1 w l2 have "s = (''TRADED'' @ w @ ''AT'') @ s'" "g' = g" by simp_all
    moreover from w(1,2) have "linking_words (''TRADED'' @ w @ ''AT'')"
      unfolding linking_words_def by blast
    ultimately show ?thesis by blast
  qed
qed

lemma pattern2_shape:
  assumes "(s', g') \<in> set (rmatch pattern2 s [])"
  shows "\<exists>y w1 k w2 e. g' = [y, e] \<and> y \<noteq> [] \<and> list_all is_sym y
           \<and> w1 \<noteq> [] \<and> list_all is_space w1 \<and> linking_words k
           \<and> w2 \<noteq> [] \<and> list_all is_space w2 \<and> e \<in> set exchanges
           \<and> s = y @ w1 @ k @ w2 @ e @ s'"
proof -
  from assms[unfolded pattern2_def] cat_cons_match obtain s1 g1 where
    a: "(s1, g1) \<in> set (rmatch (Grp (OneOrMore SymChar)) s [])"
    and r1: "(s', g') \<in> set (rmatch (Cat [OneOrMore Space,
          Alt [Lit ''ON'', Lit ''AT'', Cat [Lit ''TRADED'', OneOrMore Space, Lit ''AT'']],
          OneOrMore Space, Grp exchange_alt]) s1 g1)"
    by blast
  from cat_cons_match[OF r1] obtain s2 g2 where
    b: "(s2, g2) \<in> set (rmatch (OneOrMore Space) s1 g1)"
    and r2: "(s', g') \<in> set (rmatch (Cat [
          Alt [Lit ''ON'', Lit ''AT'', Cat [Lit ''TRADED'', OneOrMore Space, Lit ''AT'']],
          OneOrMore Space, Grp exchange_alt]) s2 g2)"
    by blast
  from cat_cons_match[OF r2] obtain s3 g3 where
    c: "(s3, g3) \<in> set (rmatch
          (Alt [Lit ''ON'', Lit ''AT'', Cat [Lit ''TRADED'', OneOrMore Space, Lit ''AT'']]) s2 g2)"
    and r3: "(s', g') \<in> set (rmatch (Cat [OneOrMore Space, Grp exchange_alt]) s3 g3)"
    by blast
  from cat_cons_match[OF r3] obtain s4 g4 where
    d: "(s4, g4) \<in> set (rmatch (OneOrMore Space) s3 g3)"
    and r4: "(s', g') \<in> set (rmatch (Cat [Grp exchange_alt]) s4 g4)"
    by blast
  from cat_cons_match[OF r4] obtain s5 g5 where
    e: "(s5, g5) \<in> set (rmatch (Grp exchange_alt) s4 g4)"
    and r5: "(s', g') \<in> set (rmatch (Cat []) s5 g5)"
    by blast
  from cat_nil_match[OF r5] have f: "s' = s5" "g' = g5" by simp_all
  from grp_symbol_match[OF a] obtain y where
    y: "y \<noteq> []" "list_all is_sym y" "s = y @ s1" "g1 = [y]" by auto
  from spaces_match[OF b] obtain w1 where
    w1: "w1 \<noteq> []" "list_all is_space w1" "s1 = w1 @ s2" "g2 = g1" by blast
  from linking_match[OF c] obtain k where
    k: "linking_words k" "s2 = k @ s3" "g3 = g2" by blast
  from spaces_match[OF d] obtain w2 where
    w2: "w2 \<noteq> []" "list_all is_space w2" "s3 = w2 @ s4" "g4 = g3" by blast
  from grp_exchange_match[OF e] obtain ex where
    ex: "ex \<in> set exchanges" "s4 = ex @ s5" "g5 = g4 @ [ex]" by blast
  from f y w1 k w2 ex have "g' = [y, ex]" "s = y @ w1 @ k @ w2 @ ex @ s'" by simp_all
  with y(1,2) w1(1,2) k(1) w2(1,2) ex(1) show ?thesis by blast
qed

lemma pattern2_found:
  assumes "re_search pattern2 s = Some m"
  shows "\<exists>y e w1 k w2 pre post. m = [y, e] \<and> y \<noteq> [] \<and> list_all is_sym y
           \<and> w1 \<noteq> [] \<and> list_all is_space w1 \<and> linking_words k
           \<and> w2 \<noteq> [] \<and> list_all is_space w2 \<and> e \<in> set exchanges
           \<and> s = pre @ y @ w1 @ k @ w2 @ e @ post"
proof -
  from re_search_found[OF assms] obtain pre t s' where
    a: "s = pre @ t" and b: "(s', m) \<in> set (rmatch pattern2 t [])" by blast
  from pattern2_shape[OF b] obtain y w1 k w2 e where
    "m = [y, e]" "y \<noteq> []" "list_all is_sym y" "w1 \<noteq> []" "list_all is_space w1"
    "linking_words k" "w2 \<noteq> []" "list_all is_space w2" "e \<in> set exchanges"
    "t = y @ w1 @ k @ w2 @ e @ s'"
    by blast
  with a show ?thesis by blast
qed

lemma pattern3_found:
  assumes "re_search pattern3 s = Some m"
  shows "\<exists>e y w pre post. m = [e, y] \<and> e \<in> set exchanges \<and> w \<noteq> [] \<and> list_all is_space w
           \<and> y \<noteq> [] \<and> list_all is_sym y \<and> s = pre @ e @ w @ y @ post"
proof -
  from re_search_found[OF assms] obtain pre t s' where
    a: "s = pre @ t" and b: "(s', m) \<in> set (rmatch pattern3 t [])" by blast
  from pattern3_shape[OF b] obtain e w y where
    "m = [e, y]" "e \<in> set exchanges" "w \<noteq> []" "list_all is_space w"
    "y \<noteq> []" "list_all is_sym y" "t = e @ w @ y @ s'"
    by blast
  with a show ?thesis by blast
qed

lemma pattern1_match: "re_search pattern1 s = Some m \<Longrightarrow> \<exists>e y. m = [e, y]"
  using pattern1_found by blast

lemma pattern2_match: "re_search pattern2 s = Some m \<Longrightarrow> \<exists>y e. m = [y, e]"
  using pattern2_found by blast

lemma pattern3_match: "re_search pattern3 s = Some m \<Longrightarrow> \<exists>e y. m = [e, y]"
  using pattern3_found by blast

section \<open>parse_symbol_from_query\<close>

text \<open>
  C10. For every input, \<open>parse_symbol_from_query\<close> returns either a symbol together with
  an exchange, or \<open>(None, None)\<close>; it never returns a symbol without an exchange (nor an
  exchange without a symbol).
\<close>

theorem parse_symbol_both_or_neither:
  "(\<exists>y e. parse_symbol_from_query query = (Some y, Some e)) \<or>
   parse_symbol_from_query query = (None, None)"
  unfolding parse_symbol_from_query_def Let_def
  by (auto split: option.splits simp: mgroup_def
      dest!: pattern1_match pattern2_match pattern3_match)

text \<open>
  C6. The four patterns are applied in the order of the specification. A match of the
  first pattern decides the result: the upper-cased text then holds an exchange name, a
  colon and a symbol, and these two are returned. Without one, a match of the second
  pattern decides: the text holds a symbol, white space, \<open>ON\<close>, \<open>AT\<close> or \<open>TRADED AT\<close>,
  white space and an exchange name. Without either, a match of the third: an exchange
  name, white space and a symbol. Without any, the first known symbol that occurs in the
  text is returned with exchange \<open>NSE\<close>; and otherwise the result is \<open>(None, None)\<close>.
  The four inputs of the specification give the four results it states.
\<close>

theorem parse_symbol_priority:
  "(\<forall>m. re_search pattern1 (upper query) = Some m \<longrightarrow>
       (\<exists>e y pre post. m = [e, y] \<and> e \<in> set exchanges \<and> y \<noteq> [] \<and> list_all is_sym y
          \<and> upper query = pre @ e @ '':'' @ y @ post
          \<and> parse_symbol_from_query query = (Some y, Some e)))
   \<and> (\<forall>m. re_search pattern1 (upper query) = None
          \<and> re_search pattern2 (upper query) = Some m \<longrightarrow>
       (\<exists>y e w1 k w2 pre post. m = [y, e] \<and> y \<noteq> [] \<and> list_all is_sym y
          \<and> w1 \<noteq> [] \<and> list_all is_space w1 \<and> linking_words k
          \<and> w2 \<noteq> [] \<and> list_all is_space w2 \<and> e \<in> set exchanges
          \<and> upper query = pre @ y @ w1 @ k @ w2 @ e @ post
          \<and> parse_symbol_from_query query = (Some y, Some e)))
   \<and> (\<forall>m. re_search pattern1 (upper query) = None
          \<and> re_search pattern2 (upper query) = None
          \<and> re_search pattern3 (upper query) = Some m \<longrightarrow>
       (\<exists>e y w pre post. m = [e, y] \<and> e \<in> set exchanges \<and> w \<noteq> [] \<and> list_all is_space w
          \<and> y \<noteq> [] \<and> list_all is_sym y
          \<and> upper query = pre @ e @ w @ y @ post
          \<and> parse_symbol_from_query query = (Some y, Some e)))
   \<and> (\<forall>y. re_search pattern1 (upper query) = None
          \<and> re_search pattern2 (upper query) = None
          \<and> re_search pattern3 (upper query) = None
          \<and> find (\<lambda>symbol. str_contains symbol (upper query)) known_symbols = Some y \<longrightarrow>
       parse_symbol_from_query query = (Some y, Some ''NSE''))
   \<and> (re_search pattern1 (upper query) = None
          \<and> re_search pattern2 (upper query) = None
          \<and> re_search pattern3 (upper query) = None
          \<and> find (\<lambda>symbol. str_contains symbol (upper query)) known_symbols = None \<longrightarrow>
       parse_symbol_from_query query = (None, None))
   \<and> parse_symbol_from_query ''NSE:RELIANCE'' = (Some ''RELIANCE'', Some ''NSE'')
   \<and> parse_symbol_from_query ''RELIANCE on BSE'' = (Some ''RELIANCE'', Some ''BSE'')
   \<and> parse_symbol_from_query ''tell me about TCS'' = (Some ''TCS'', Some ''NSE'')
   \<and> parse_symbol_from_query ''random unrelated text'' = (None, None)"
proof -
  have p1: "\<forall>m. re_search pattern1 (upper query) = Some m \<longrightarrow>
       (\<exists>e y pre post. m = [e, y] \<and> e \<in> set exchanges \<and> y \<noteq> [] \<and> list_all is_sym y
          \<and> upper query = pre @ e @ '':'' @ y @ post
          \<and> parse_symbol_from_query query = (Some y, Some e))"
  proof (intro allI impI)
    fix m assume a: "re_search pattern1 (upper query) = Some m"
    from pattern1_found[OF a] obtain e y pre post where
      b: "m = [e, y]" "e \<in> set exchanges" "y \<noteq> []" "list_all is_sym y"
         "upper query = pre @ e @ '':'' @ y @ post" by blast
    from a b(1) have "parse_symbol_from_query query = (Some y, Some e)"
      by (simp add: parse_symbol_from_query_def mgroup_def)
    with b show "\<exists>e y pre post. m = [e, y] \<and> e \<in> set exchanges \<and> y \<noteq> []
          \<and> list_all is_sym y \<and> upper query = pre @ e @ '':'' @ y @ post
          \<and> parse_symbol_from_query query = (Some y, Some e)" by blast
  qed
  have p2: "\<forall>m. re_search pattern1 (upper query) = None
          \<and> re_search pattern2 (upper query) = Some m \<longrightarrow>
       (\<exists>y e w1 k w2 pre post. m = [y, e] \<and> y \<noteq> [] \<and> list_all is_sym y
          \<and> w1 \<noteq> [] \<and> list_all is_space w1 \<and> linking_words k
          \<and> w2 \<noteq> [] \<and> list_all is_space w2 \<and> e \<in> set exchanges
          \<and> upper query = pre @ y @ w1 @ k @ w2 @ e @ post
          \<and> parse_symbol_from_query query = (Some y, Some e))"
  proof (intro allI impI)
    fix m assume "re_search pattern1 (upper query) = None
          \<and> re_search pattern2 (upper query) = Some m"
    then have n: "re_search pattern1 (upper query) = None"
      and a: "re_search pattern2 (upper query) = Some m" by simp_all
    from pattern2_found[OF a] obtain y e w1 k w2 pre post where
      b: "m = [y, e]" "y \<noteq> []" "list_all is_sym y" "w1 \<noteq> []" "list_all is_space w1"
         "linking_words k" "w2 \<noteq> []" "list_all is_space w2" "e \<in> set exchanges"
         "upper query = pre @ y @ w1 @ k @ w2 @ e @ post" by blast
    from n a b(1) have "parse_symbol_from_query query = (Some y, Some e)"
      by (simp add: parse_symbol_from_query_def mgroup_def)
    with b show "\<exists>y e w1 k w2 pre post. m = [y, e] \<and> y \<noteq> [] \<and> list_all is_sym y
          \<and> w1 \<noteq> [] \<and> list_all is_space w1 \<and> linking_words k
          \<and> w2 \<noteq> [] \<and> list_all is_space w2 \<and> e \<in> set exchanges
          \<and> upper query = pre @ y @ w1 @ k @ w2 @ e @ post
          \<and> parse_symbol_from_query query = (Some y, Some e)" by blast
  qed
  have p3: "\<forall>m. re_search pattern1 (upper query) = None
          \<and> re_search pattern2 (upper query) = None
          \<and> re_search pattern3 (upper query) = Some m \<longrightarrow>
       (\<exists>e y w pre post. m = [e, y] \<and> e \<in> set exchanges \<and> w \<noteq> [] \<and> list_all is_space w
          \<and> y \<noteq> [] \<and> list_all is_sym y
          \<and> upper query = pre @ e @ w @ y @ post
          \<and> parse_symbol_from_query query = (Some y, Some e))"
  proof (intro allI impI)
    fix m assume "re_search pattern1 (upper query) = None
          \<and> re_search pattern2 (upper query) = None
          \<and> re_search pattern3 (upper query) = Some m"
    then have n: "re_search pattern1 (upper query) = None"
        "re_search pattern2 (upper query) = None"
      and a: "re_search pattern3 (upper query) = Some m" by simp_all
    from pattern3_found[OF a] obtain e y w pre post where
      b: "m = [e, y]" "e \<in> set exchanges" "w \<noteq> []" "list_all is_space w"
         "y \<noteq> []" "list_all is_sym y" "upper query = pre @ e @ w @ y @ post" by blast
    from n a b(1) have "parse_symbol_from_query query = (Some y, Some e)"
      by (simp add: parse_symbol_from_query_def mgroup_def)
    with b show "\<exists>e y w pre post. m = [e, y] \<and> e \<in> set exchanges \<and> w \<noteq> []
          \<and> list_all is_space w \<and> y \<noteq> [] \<and> list_all is_sym y
          \<and> upper query = pre @ e @ w @ y @ post
          \<and> parse_symbol_from_query query = (Some y, Some e)" by blast
  qed
  have p4: "\<forall>y. re_search pattern1 (upper query) = None
          \<and> re_search pattern2 (upper query) = None
          \<and> re_search pattern3 (upper query) = None
          \<and> find (\<lambda>symbol. str_contains symbol (upper query)) known_symbols = Some y \<longrightarrow>
       parse_symbol_from_query query = (Some y, Some ''NSE'')"
    by (simp add: parse_symbol_from_query_def)
  have p5: "re_search pattern1 (upper query) = None
          \<and> re_search pattern2 (upper query) = None
          \<and> re_search pattern3 (upper query) = None
          \<and> find (\<lambda>symbol. str_contains symbol (upper query)) known_symbols = None \<longrightarrow>
       parse_symbol_from_query query = (None, None)"
    by (simp add: parse_symbol_from_query_def)
  have e1: "parse_symbol_from_query ''NSE:RELIANCE'' = (Some ''RELIANCE'', Some ''NSE'')"
    by code_simp
  have e2: "parse_symbol_from_query ''RELIANCE on BSE'' = (Some ''RELIANCE'', Some ''BSE'')"
    by code_simp
  have e3: "parse_symbol_from_query ''tell me about TCS'' = (Some ''TCS'', Some ''NSE'')"
    by code_simp
  have e4: "parse_symbol_from_query ''random unrelated text'' = (None, None)"
    by code_simp
  from p1 p2 p3 p4 p5 e1 e2 e3 e4 show ?thesis by blast
qed

text \<open>
  C6 at two inputs that more than one pattern matches. In \<open>nse:tcs on bse\<close> the first
  and the second pattern match, and the first decides. In \<open>reliance bse tcs\<close> the third
  pattern matches and a known symbol occurs, and the third pattern decides.
\<close>

theorem parse_symbol_priority_witness:
  "re_search pattern1 (upper ''nse:tcs on bse'') = Some [''NSE'', ''TCS'']
   \<and> re_search pattern2 (upper ''nse:tcs on bse'') = Some [''TCS'', ''BSE'']
   \<and> parse_symbol_from_query ''nse:tcs on bse'' = (Some ''TCS'', Some ''NSE'')
   \<and> re_search pattern1 (upper ''reliance bse tcs'') = None
   \<and> re_search pattern2 (upper ''reliance bse tcs'') = None
   \<and> re_search pattern3 (upper ''reliance bse tcs'') = Some [''BSE'', ''TCS'']
   \<and> find (\<lambda>symbol. str_contains symbol (upper ''reliance bse tcs'')) known_symbols
        = Some ''RELIANCE''
   \<and> parse_symbol_from_query ''reliance bse tcs'' = (Some ''TCS'', Some ''BSE'')"
proof -
  have a: "re_search pattern1 (upper ''nse:tcs on bse'') = Some [''NSE'', ''TCS'']"
    by code_simp
  have b: "re_search pattern2 (upper ''nse:tcs on bse'') = Some [''TCS'', ''BSE'']"
    by code_simp
  have c: "re_search pattern1 (upper ''reliance bse tcs'') = None"
    "re_search pattern2 (upper ''reliance bse tcs'') = None"
    "re_search pattern3 (upper ''reliance bse tcs'') = Some [''BSE'', ''TCS'']"
    by code_simp+
  have d: "find (\<lambda>symbol. str_contains symbol (upper ''reliance bse tcs'')) known_symbols
        = Some ''RELIANCE''"
    by code_simp
  from parse_symbol_priority[of "''nse:tcs on bse''"] a
  have "parse_symbol_from_query ''nse:tcs on bse'' = (Some ''TCS'', Some ''NSE'')" by auto
  moreover from parse_symbol_priority[of "''reliance bse tcs''"] c
  have "parse_symbol_from_query ''reliance bse tcs'' = (Some ''TCS'', Some ''BSE'')" by auto
  ultimately show ?thesis using a b c d by simp
qed

section \<open>analyze_multi_domain_request\<close>

lemma demo_query_compound:
  "str_contains ''add part'' (lower demo_query) \<and>
   str_contains ''payment link'' (lower demo_query)"
  by code_simp

lemma spec_query_compound:
  "str_contains ''add part'' (lower spec_query) \<and>
   str_contains ''payment link'' (lower spec_query)"
  by code_simp

text \<open>
  C1, as the claim states it, fails: for the query that \<open>main\<close> sends, step \<open>execute_1\<close>
  declares the dependency \<open>validate_5\<close>, which no step of the plan has as its id, and the
  builder returns the plan with its execution order all the same.
\<close>

theorem dangling_plan_is_returned:
  "dangling_dependencies (analyze_multi_domain_request demo_query)
     = [(''execute_1'', ''validate_5'')]
   \<and> execution_order (analyze_multi_domain_request demo_query)
       = [''validate_1'', ''validate_2'', ''execute_1'', ''execute_2'']"
  using demo_query_compound
  by (simp add: analyze_multi_domain_request_def dangling_dependencies_def step_ids_def)

text \<open>
  C1, amended. The builder checks no dependency and has no way to fail: for every query
  it returns a plan whose execution order is not empty and lists the ids of the plan's
  steps in the order the steps are declared.
\<close>

theorem builder_always_returns_order:
  "execution_order (analyze_multi_domain_request query)
     = step_ids (analyze_multi_domain_request query)
   \<and> execution_order (analyze_multi_domain_request query) \<noteq> []"
  by (simp add: analyze_multi_domain_request_def step_ids_def)

text \<open>
  C2 at the query that \<open>main\<close> sends: the execution order is a permutation of the step
  ids, but not every dependency stands before its step (\<open>validate_5\<close>, on which
  \<open>execute_1\<close> depends, is not in the execution order at all).
\<close>

theorem demo_plan_dependency_not_first:
  "order_is_permutation (analyze_multi_domain_request demo_query)
   \<and> \<not> dependencies_first (analyze_multi_domain_request demo_query)"
  using demo_query_compound
  by (simp add: analyze_multi_domain_request_def order_is_permutation_def step_ids_def
      dependencies_first_def earlier_in_order_def)

text \<open>
  C3, as the claim states it, fails at the specification's example query: neither
  execution step depends on the validation steps of the entities it touches, directly or
  through other steps.
\<close>

theorem execution_steps_miss_validations:
  "''validate_1'' \<notin> set (all_dependencies (analyze_multi_domain_request spec_query) ''execute_1'')
   \<and> ''validate_2'' \<notin> set (all_dependencies (analyze_multi_domain_request spec_query) ''execute_1'')
   \<and> ''validate_1'' \<notin> set (all_dependencies (analyze_multi_domain_request spec_query) ''execute_2'')
   \<and> ''validate_1'' \<notin> set (direct_dependencies (analyze_multi_domain_request spec_query) ''execute_2'')"
  using spec_query_compound
  by (simp add: analyze_multi_domain_request_def all_dependencies_def direct_dependencies_def)

text \<open>
  C3, amended. For every query that contains both \<open>add part\<close> and \<open>payment link\<close>, in
  any case of the letters, the builder returns a plan of exactly four steps, two
  validation steps followed by two execution steps; the second validation step depends
  on the first, the payment step depends on the part-addition step and on nothing else,
  and the execution order holds exactly the four step ids, in the order of the steps.
\<close>

theorem compound_plan_shape:
  assumes "str_contains ''add part'' (lower query)"
    and "str_contains ''payment link'' (lower query)"
  shows "map (\<lambda>s. (step_id s, agent_type s, WorkflowStep.action s))
             (steps (analyze_multi_domain_request query))
           = [(''validate_1'', ''repair_orders'', ''validate_repair_order''),
              (''validate_2'', ''parts'', ''validate_part_exists''),
              (''execute_1'', ''parts'', ''add_part_to_order''),
              (''execute_2'', ''payment'', ''create_payment_link'')]
         \<and> direct_dependencies (analyze_multi_domain_request query) ''validate_1'' = []
         \<and> direct_dependencies (analyze_multi_domain_request query) ''validate_2''
             = [''validate_1'']
         \<and> direct_dependencies (analyze_multi_domain_request query) ''execute_2''
             = [''execute_1'']
         \<and> execution_order (analyze_multi_domain_request query)
             = [''validate_1'', ''validate_2'', ''execute_1'', ''execute_2'']
         \<and> execution_order (analyze_multi_domain_request query)
             = step_ids (analyze_multi_domain_request query)
         \<and> length (execution_order (analyze_multi_domain_request query)) = 4"
  using assms
  by (simp add: analyze_multi_domain_request_def direct_dependencies_def step_ids_def)

text \<open>The amended C3 at the specification's example query.\<close>

theorem compound_plan_shape_witness:
  "str_contains ''add part'' (lower spec_query)
   \<and> str_contains ''payment link'' (lower spec_query)
   \<and> execution_order (analyze_multi_domain_request spec_query)
       = [''validate_1'', ''validate_2'', ''execute_1'', ''execute_2'']
   \<and> direct_dependencies (analyze_multi_domain_request spec_query) ''execute_2''
       = [''execute_1'']
   \<and> length (execution_order (analyze_multi_domain_request spec_query)) = 4"
proof -
  have a: "str_contains ''add part'' (lower spec_query)"
    and b: "str_contains ''payment link'' (lower spec_query)"
    using spec_query_compound by simp_all
  from compound_plan_shape[OF a b] a b show ?thesis by simp
qed

section \<open>The domain tools\<close>

lemma email_abc_matches: "re_match email_regex ''abc@gmail.com'' = Some []"
  by code_simp

lemma payment_link_created:
  "\<exists>env. create_payment_link ''RO_001'' (FloatVal 100) ''abc@gmail.com'' ''USD'' = Inr env
     \<and> map_of env ''success'' = Some (PBool True)"
  using email_abc_matches by (simp add: create_payment_link_def Let_def)

text \<open>
  C8, as the claim states it, fails: the envelope of a successful
  \<open>get_repair_order_details\<close> has no \<open>message\<close>.
\<close>

theorem lookup_success_has_no_message:
  "map_of (get_repair_order_details ''RO_001'') ''success'' = Some (PBool True)
   \<and> \<not> has_key (get_repair_order_details ''RO_001'') ''message''"
  by (simp add: get_repair_order_details_def has_key_def)

text \<open>
  C8, amended. Every envelope a tool returns has a tool name and a Boolean \<open>success\<close>; it
  has a \<open>result\<close> and no \<open>error\<close> when \<open>success\<close> is true, and an \<open>error\<close>, a \<open>message\<close> and
  no \<open>result\<close> when it is false. The two lookups put a \<open>message\<close> into their failure
  envelopes only; \<open>add_part_to_repair_order\<close> and \<open>create_payment_link\<close> put one into
  every envelope. \<open>mcp_server\<close> is in every envelope of the two lookups and of
  \<open>add_part_to_repair_order\<close>, and in the successful envelope of \<open>create_payment_link\<close>.
\<close>

theorem tool_envelopes:
  "envelope_core (get_repair_order_details ro_number)
   \<and> has_key (get_repair_order_details ro_number) ''mcp_server''
   \<and> (has_key (get_repair_order_details ro_number) ''message'' \<longleftrightarrow> ro_number \<noteq> ''RO_001'')
   \<and> envelope_core (get_part_by_number part_number)
   \<and> has_key (get_part_by_number part_number) ''mcp_server''
   \<and> (has_key (get_part_by_number part_number) ''message'' \<longleftrightarrow> part_number \<noteq> ''PART_001'')
   \<and> (\<forall>env. add_part_to_repair_order ro_number part_number quantity = Inr env \<longrightarrow>
          envelope_core env \<and> has_key env ''message'' \<and> has_key env ''mcp_server'')
   \<and> (\<forall>env. create_payment_link ro_number amount customer_email currency = Inr env \<longrightarrow>
          envelope_core env \<and> has_key env ''message''
          \<and> (map_of env ''success'' = Some (PBool True) \<longrightarrow> has_key env ''mcp_server''))"
proof -
  have a: "envelope_core (get_repair_order_details ro_number)
     \<and> has_key (get_repair_order_details ro_number) ''mcp_server''
     \<and> (has_key (get_repair_order_details ro_number) ''message'' \<longleftrightarrow> ro_number \<noteq> ''RO_001'')"
    by (simp add: get_repair_order_details_def envelope_core_def has_key_def)
  have b: "envelope_core (get_part_by_number part_number)
     \<and> has_key (get_part_by_number part_number) ''mcp_server''
     \<and> (has_key (get_part_by_number part_number) ''message'' \<longleftrightarrow> part_number \<noteq> ''PART_001'')"
    by (simp add: get_part_by_number_def envelope_core_def has_key_def)
  have c: "\<forall>env. add_part_to_repair_order ro_number part_number quantity = Inr env \<longrightarrow>
          envelope_core env \<and> has_key env ''message'' \<and> has_key env ''mcp_server''"
    by (auto simp: add_part_to_repair_order_def envelope_core_def has_key_def split: if_splits)
  have d: "\<forall>env. create_payment_link ro_number amount customer_email currency = Inr env \<longrightarrow>
          envelope_core env \<and> has_key env ''message''
          \<and> (map_of env ''success'' = Some (PBool True) \<longrightarrow> has_key env ''mcp_server'')"
    by (auto simp: create_payment_link_def envelope_core_def has_key_def Let_def
        split: if_splits sum.splits)
  from a b c d show ?thesis by blast
qed

text \<open>The amended C8 at the payment link that the compound plan asks for.\<close>

theorem tool_envelopes_witness:
  "\<exists>env. create_payment_link ''RO_001'' (FloatVal 100) ''abc@gmail.com'' ''USD'' = Inr env
     \<and> map_of env ''success'' = Some (PBool True)
     \<and> envelope_core env \<and> has_key env ''message'' \<and> has_key env ''mcp_server''"
proof -
  from payment_link_created obtain env where
    e: "create_payment_link ''RO_001'' (FloatVal 100) ''abc@gmail.com'' ''USD'' = Inr env"
    and s: "map_of env ''success'' = Some (PBool True)" by blast
  from tool_envelopes[of "''RO_001''" "''PART_001''" 1 "FloatVal 100" "''abc@gmail.com''"
      "''USD''"] e s
  show ?thesis by blast
qed

lemma huge_quantity_does_not_fit: "\<not> int_fits_float (2 ^ 1024)"
  by (simp add: int_fits_float_def)

lemma one_fits: "int_fits_float 1"
  by (simp add: int_fits_float_def)

text \<open>
  C9, as the claim states it, fails: for the quantity \<open>2^1024\<close> the product
  \<open>45.99 * quantity\<close> raises \<open>OverflowError\<close>, and no envelope is returned.
\<close>

theorem add_part_overflows:
  "add_part_to_repair_order ''RO_001'' ''PART_001'' (2 ^ 1024) = Inl OverflowError"
  using huge_quantity_does_not_fit by (simp add: add_part_to_repair_order_def)

text \<open>
  C9, amended. For every repair order number and part number, whether they exist or
  not, and every quantity that Python can convert to a float,
  \<open>add_part_to_repair_order\<close> returns an envelope whose \<open>success\<close> is true; every envelope
  it returns has \<open>success\<close> true, so it has no failure envelope; for any other quantity
  it raises \<open>OverflowError\<close>.
\<close>

theorem add_part_succeeds:
  "(int_fits_float quantity \<longrightarrow>
      (\<exists>env. add_part_to_repair_order ro_number part_number quantity = Inr env
             \<and> map_of env ''success'' = Some (PBool True)))
   \<and> (\<forall>env. add_part_to_repair_order ro_number part_number quantity = Inr env
         \<longrightarrow> map_of env ''success'' = Some (PBool True))
   \<and> (\<not> int_fits_float quantity \<longrightarrow>
         add_part_to_repair_order ro_number part_number quantity = Inl OverflowError)"
  by (auto simp: add_part_to_repair_order_def)

text \<open>The amended C9 at a repair order and a part that no tool knows.\<close>

theorem add_part_succeeds_witness:
  "int_fits_float 1 \<and>
   (\<exists>env. add_part_to_repair_order ''RO_999'' ''NO_SUCH_PART'' 1 = Inr env
        \<and> map_of env ''success'' = Some (PBool True))"
  using add_part_succeeds[of 1 "''RO_999''" "''NO_SUCH_PART''"] one_fits by blast

section \<open>The conversation loop\<close>


lemma loop_iteration_continue:
  assumes "loop_iteration run st = Inr st'"
  shows "turn st' = Suc (turn st) \<and> length (inputs st') \<le> 20
         \<and> (\<exists>r. run (turn st) (agent st) (inputs st) = Inr r \<and> inputs st' = to_input_list r)"
  using assms
  by (auto simp: loop_iteration_def Let_def split: sum.splits if_splits agent_output.splits)



text \<open>Without the growth of the input list the loop need not end: here it never does.\<close>

lemma stuck_runner_never_returns: "conversation_loop fuel stuck_runner st = None"
proof (induction fuel arbitrary: st)
  case 0
  then show ?case by simp
next
  case (Suc fuel)
  have "loop_iteration stuck_runner st =
      Inr \<lparr>inputs = [[(''content'', ''bonjour''), (''role'', ''assistant'')]],
           agent = french_agent, turn = Suc (turn st)\<rparr>"
    by (simp add: loop_iteration_def stuck_runner_def)
  with Suc show ?case by simp
qed

lemma relay_runner_growing: "growing relay_runner"
  by (auto simp: growing_def relay_runner_def)

lemma relay_runner_never_completes: "never_completes relay_runner"
  by (auto simp: never_completes_def relay_runner_def)

text \<open>
  A triage agent that never decides anything: the loop is left after 20 runs, when the
  list holds 21 items, by the break that follows the warning.
\<close>

lemma relay_runner_capped:
  "(case exchange 20 relay_runner ''hello'' of
      Some (ex, st) \<Rightarrow> ex = TooManyIterations \<and> turn st = 20 \<and> length (inputs st) = 21
         \<and> agent st = french_agent
    | None \<Rightarrow> False)"
  by code_simp

text \<open>
  When the triage agent answers with something that is no \<open>TriageDecision\<close>, the loop is
  left by its fallback break, here after one run.
\<close>

lemma unexpected_output_ends_loop:
  "exchange 20 plain_text_runner ''hello'' =
     Some (UnexpectedResponse,
           \<lparr>inputs = [[(''content'', ''hello''), (''role'', ''user'')],
                      [(''content'', ''hello''), (''role'', ''assistant'')]],
            agent = triage_agent, turn = 1\<rparr>)"
  by (simp add: exchange_def exchange_start_def eval_nat_numeral loop_iteration_def
      plain_text_runner_def)

lemma state_after_loop:
  "state_after k run st0 = Some st \<Longrightarrow>
     conversation_loop (k + f) run st0 = conversation_loop f run st \<and> turn st = turn st0 + k"
proof (induction k arbitrary: st0)
  case 0
  then show ?case by simp
next
  case (Suc k)
  then show ?case
    by (cases "loop_iteration run st0") (auto dest: loop_iteration_continue)
qed












text \<open>The undecided triage agent: 20 runs are made, and the list then holds 21 items.\<close>

lemma undecided_capped:
  "(case exchange 20 undecided_runner ''hello'' of
      Some (ex, st) \<Rightarrow> ex = TooManyIterations \<and> turn st = 20 \<and> length (inputs st) = 21
         \<and> agent st = triage_agent
    | None \<Rightarrow> False)"
  by code_simp

text \<open>
  C7. Whenever, at any pass of the loop, the run ends at the triage agent with a
  \<open>TriageDecision\<close> whose action is \<open>complete\<close>, the loop is left at once: the exchange
  ends as completed in the state that run produced, and the runner has been called
  exactly as often as up to and including that run, so no agent runs after it.
\<close>

theorem complete_is_terminal:
  assumes "state_after k run st0 = Some st"
    and "run (turn st) (agent st) (inputs st) = Inr r"
    and "last_agent r = triage_agent"
    and "final_output r = Decision d"
    and "TriageDecision.action d = complete"
  shows "conversation_loop (Suc (k + fuel)) run st0 =
           Some (Completed, \<lparr>inputs = to_input_list r, agent = triage_agent,
                             turn = Suc (turn st0 + k)\<rparr>)"
proof -
  from assms(2-5) have "loop_iteration run st =
      Inl (Completed, \<lparr>inputs = to_input_list r, agent = triage_agent, turn = Suc (turn st)\<rparr>)"
    by (simp add: loop_iteration_def)
  then have "conversation_loop (Suc fuel) run st =
      Some (Completed, \<lparr>inputs = to_input_list r, agent = triage_agent, turn = Suc (turn st)\<rparr>)"
    by simp
  with state_after_loop[OF assms(1), of "Suc fuel"] show ?thesis by simp
qed

text \<open>
  C7 at an exchange in which the triage agent hands to the French agent and completes
  at the second run: two runs are made, whatever fuel is left.
\<close>

theorem complete_is_terminal_witness:
  "state_after 1 complete_runner (exchange_start ''hello'') =
     Some \<lparr>inputs = [[(''content'', ''hello''), (''role'', ''user'')],
                     [(''content'', ''bonjour''), (''role'', ''assistant'')]],
           agent = french_agent, turn = 1\<rparr>
   \<and> conversation_loop 10 complete_runner (exchange_start ''hello'') =
       Some (Completed,
             \<lparr>inputs = [[(''content'', ''hello''), (''role'', ''user'')],
                        [(''content'', ''bonjour''), (''role'', ''assistant'')],
                        [(''content'', ''done''), (''role'', ''assistant'')]],
              agent = triage_agent, turn = 2\<rparr>)"
proof -
  let ?st = "\<lparr>inputs = [[(''content'', ''hello''), (''role'', ''user'')],
                        [(''content'', ''bonjour''), (''role'', ''assistant'')]],
              agent = french_agent, turn = 1\<rparr>"
  let ?r = "\<lparr>final_output = Decision \<lparr>action = complete, message = ''done'',
                                       remaining_languages = []\<rparr>,
             to_input_list = inputs ?st @ [[(''content'', ''done''), (''role'', ''assistant'')]],
             last_agent = triage_agent\<rparr>"
  have a: "state_after 1 complete_runner (exchange_start ''hello'') = Some ?st"
    by (simp add: exchange_start_def loop_iteration_def complete_runner_def)
  have b: "complete_runner (turn ?st) (agent ?st) (inputs ?st) = Inr ?r"
    by (simp add: complete_runner_def)
  from complete_is_terminal[OF a b, of _ 8] show ?thesis using a
    by (simp add: exchange_start_def)
qed

end
